theory Spec2Isabelle
  imports Complex_Main
begin

section \<open>The client: src/frontend/src/App.js\<close>

subsection \<open>JavaScript values\<close>

text \<open>
  The values the component's state holds: \<open>results\<close> starts as \<open>null\<close> and is set to
  \<open>response.data\<close> (whatever the endpoint answered, parsed from JSON), \<open>error\<close> is a
  string or whatever \<open>err.response.data.error\<close> held. A number is kept by its value
  (JSON has no NaN); an object is kept as the list of its own properties.
\<close>

datatype js =
    JUndefined
  | JNull
  | JBool bool
  | JNum rat
  | JStr string
  | JArr "js list"
  | JObj "(string \<times> js) list"

datatype js_error = TypeError

text \<open>Truthiness, as \<open>&&\<close>, \<open>||\<close>, \<open>if\<close> and \<open>?:\<close> test it.\<close>

fun truthy :: "js \<Rightarrow> bool" where
  "truthy JUndefined = False"
| "truthy JNull = False"
| "truthy (JBool b) = b"
| "truthy (JNum n) = (n \<noteq> 0)"
| "truthy (JStr s) = (s \<noteq> [])"
| "truthy (JArr xs) = True"
| "truthy (JObj kvs) = True"

text \<open>
  \<open>v.name\<close> for a name that no built-in prototype defines (\<open>route\<close>, \<open>coordinates\<close>,
  \<open>response\<close>, \<open>data\<close>, \<open>error\<close>): reading it from \<open>null\<close> or \<open>undefined\<close> throws a
  TypeError, an object answers with its own property, every other value with \<open>undefined\<close>.
\<close>

fun member :: "js \<Rightarrow> string \<Rightarrow> js_error + js" where
  "member JUndefined k = Inl TypeError"
| "member JNull k = Inl TypeError"
| "member (JObj kvs) k = Inr (case map_of kvs k of None \<Rightarrow> JUndefined | Some v \<Rightarrow> v)"
| "member v k = Inr JUndefined"

text \<open>\<open>v[0]\<close>: the first element of an array, the first character of a string, the
  property \<open>"0"\<close> of an object; \<open>undefined\<close> when there is none.\<close>

fun elem0 :: "js \<Rightarrow> js_error + js" where
  "elem0 JUndefined = Inl TypeError"
| "elem0 JNull = Inl TypeError"
| "elem0 (JArr xs) = Inr (case xs of [] \<Rightarrow> JUndefined | x # _ \<Rightarrow> x)"
| "elem0 (JStr s) = Inr (case s of [] \<Rightarrow> JUndefined | c # _ \<Rightarrow> JStr [c])"
| "elem0 (JObj kvs) = Inr (case map_of kvs ''0'' of None \<Rightarrow> JUndefined | Some v \<Rightarrow> v)"
| "elem0 v = Inr JUndefined"

text \<open>\<open>v?.name\<close>: \<open>undefined\<close> on \<open>null\<close> and \<open>undefined\<close>, the property otherwise.\<close>

fun opt_member :: "js \<Rightarrow> string \<Rightarrow> js" where
  "opt_member (JObj kvs) k = (case map_of kvs k of None \<Rightarrow> JUndefined | Some v \<Rightarrow> v)"
| "opt_member v k = JUndefined"

text \<open>\<open>a || b\<close>.\<close>

definition js_or :: "js \<Rightarrow> js \<Rightarrow> js" where
  "js_or a b = (if truthy a then a else b)"

subsection \<open>getMapCenter\<close>

definition usa_center :: js where
  "usa_center = JArr [JNum 39.8283, JNum (- 98.5795)]"

text \<open>
  \<open>results && results.route && results.route.coordinates\<close> reads each property only
  when what is left of it is truthy; the body then returns \<open>coords[0]\<close> unguarded.
\<close>

definition getMapCenter :: "js \<Rightarrow> js_error + js" where
  "getMapCenter results =
     (if truthy results then
        (case member results ''route'' of
           Inl e \<Rightarrow> Inl e
         | Inr route \<Rightarrow>
             if truthy route then
               (case member route ''coordinates'' of
                  Inl e \<Rightarrow> Inl e
                | Inr coords \<Rightarrow> if truthy coords then elem0 coords else Inr usa_center)
             else Inr usa_center)
      else Inr usa_center)"

subsection \<open>The markers\<close>

text \<open>
  \<open>results.route.coordinates.map((coord, idx) => <Marker key={idx} position={coord}>
  <Popup>{idx === 0 ? 'Current Location' : idx === 1 ? 'Pickup' : 'Dropoff'}</Popup>\<close>
\<close>

record marker =
  key :: nat
  position :: js
  popup :: string

definition popup_label :: "nat \<Rightarrow> string" where
  "popup_label idx =
     (if idx = 0 then ''Current Location'' else if idx = 1 then ''Pickup'' else ''Dropoff'')"

definition markers :: "js list \<Rightarrow> marker list" where
  "markers coords =
     map (\<lambda>(idx, coord). \<lparr>key = idx, position = coord, popup = popup_label idx\<rparr>)
       (enumerate 0 coords)"

text \<open>The guarded block of the map: nothing unless the three-fold \<open>&&\<close> is truthy; a
  truthy \<open>coordinates\<close> that is not an array has no \<open>map\<close> method to call.\<close>

definition render_markers :: "js \<Rightarrow> js_error + marker list" where
  "render_markers results =
     (if truthy results then
        (case member results ''route'' of
           Inl e \<Rightarrow> Inl e
         | Inr route \<Rightarrow>
             if truthy route then
               (case member route ''coordinates'' of
                  Inl e \<Rightarrow> Inl e
                | Inr coords \<Rightarrow>
                    if truthy coords then
                      (case coords of JArr cs \<Rightarrow> Inr (markers cs) | _ \<Rightarrow> Inl TypeError)
                    else Inr [])
             else Inr [])
      else Inr [])"

subsection \<open>handleSubmit\<close>

text \<open>The three state cells of the component that \<open>handleSubmit\<close> writes.\<close>

record app_state =
  results :: js
  loading :: bool
  error :: js

definition initial_state :: app_state where
  "initial_state = \<lparr>results = JNull, loading = False, error = JStr ''''\<rparr>"

text \<open>
  How the awaited \<open>axios.post\<close> ends: it resolves with a response, of which the handler
  reads \<open>data\<close>, or it rejects with an error object, given by its properties.
\<close>

datatype outcome = Resolved js | Rejected "(string \<times> js) list"

definition failure_text :: js where
  "failure_text = JStr ''Failed to calculate route. Please check your inputs.''"

text \<open>Up to the \<open>await\<close>: \<open>setLoading(true); setError(''); setResults(null)\<close>.\<close>

definition begin_submit :: "app_state \<Rightarrow> app_state" where
  "begin_submit s = s\<lparr>loading := True, error := JStr '''', results := JNull\<rparr>"

text \<open>After the \<open>await\<close>: the \<open>try\<close> body or the \<open>catch\<close> clause, then \<open>finally\<close>.\<close>

fun settle :: "outcome \<Rightarrow> app_state \<Rightarrow> app_state" where
  "settle (Resolved data) s = (s\<lparr>results := data\<rparr>)\<lparr>loading := False\<rparr>"
| "settle (Rejected err) s =
     (s\<lparr>error := js_or (opt_member (opt_member (opt_member (JObj err) ''response'') ''data'') ''error'')
                  failure_text\<rparr>)\<lparr>loading := False\<rparr>"

definition handleSubmit :: "outcome \<Rightarrow> app_state \<Rightarrow> app_state" where
  "handleSubmit out s = settle out (begin_submit s)"

text \<open>
  The error line of the returned tree, \<open>{error && <div className="error-message">{error}</div>}\<close>.
  A falsy \<open>error\<close> is itself the child: the empty string, \<open>null\<close>, \<open>undefined\<close> and
  \<open>false\<close> show nothing, the number 0 shows as text. A truthy \<open>error\<close> becomes the child
  of the \<open>div\<close>, and React accepts a string, a number, a boolean or an array of such as
  a child; for a plain object it throws (objects are not valid as a React child), and
  with no error boundary in the component nothing of the tree is displayed.
\<close>

datatype react_error = ObjectAsChild

fun valid_child :: "js \<Rightarrow> bool" where
  "valid_child (JObj kvs) = False"
| "valid_child (JArr xs) = list_all valid_child xs"
| "valid_child v = True"

datatype error_line = NoLine | BareText js | ErrorMessage js

definition render_error :: "app_state \<Rightarrow> react_error + error_line" where
  "render_error s =
     (if truthy (error s) then
        (if valid_child (error s) then Inr (ErrorMessage (error s)) else Inl ObjectAsChild)
      else (case error s of JNum n \<Rightarrow> Inr (BareText (error s)) | _ \<Rightarrow> Inr NoLine))"

section \<open>The trip planner behind the endpoint\<close>

text \<open>
  The client posts the form to \<open>/api/calculate-route/\<close>. The code that answers is not
  among the sources; what follows is the rule engine of the specification (sections 3,
  4.1 and 4.2), written down from its words. Hours and miles are exact rationals.
\<close>

subsection \<open>Data model (specification, section 3)\<close>

text \<open>Modelled from the spec: the \<open>current_status\<close> enum of the DutyClock; the engine's
  source is missing.\<close>

datatype DutyStatus = Driving | OnDutyNotDriving | SleeperBerth | OffDuty

text \<open>Modelled from the spec: the DutyClock, the engine's mutable state; its source is
  missing. \<open>current_time\<close> is the simulated timestamp, in hours.\<close>

record DutyClock =
  drive_hours_today :: rat
  on_duty_window_hours :: rat
  cycle_hours_used :: rat
  hours_since_break :: rat
  current_time :: rat
  current_status :: DutyStatus

text \<open>Modelled from the spec: the kinds of a StopDecision; the engine's source is
  missing.\<close>

datatype StopKind =
  ThirtyMinuteBreak | DailyRest10h | CycleReset34h | Fuel | PickupHandling | DropoffHandling

text \<open>Modelled from the spec: the StopDecision the rule engine emits; its source is
  missing.\<close>

record StopDecision =
  kind :: StopKind
  trigger_distance_miles :: rat
  duration_hours :: rat

text \<open>Modelled from the spec: the purpose of a RouteSegment; the sequencer's source is
  missing.\<close>

datatype Purpose = travel | pickup | dropoff

text \<open>Modelled from the spec: the RouteSegment; the sequencer's source is missing. A
  \<open>pickup\<close> or \<open>dropoff\<close> segment has distance zero and carries its fixed handling
  time in \<open>drive_duration_hours\<close>.\<close>

record RouteSegment =
  distance_miles :: rat
  drive_duration_hours :: rat
  purpose :: Purpose

text \<open>Modelled from the spec: the EldLogEntry; the log compiler's source is missing.
  \<open>time\<close> stands for the entry's \<open>date\<close> and \<open>time\<close>: the clock's \<open>current_time\<close>
  at the start of the status segment. The entry's \<open>location\<close> is left out.\<close>

record EldLogEntry =
  time :: rat
  status :: DutyStatus
  hours_driven :: rat
  remarks :: string

text \<open>Modelled from the spec: the thresholds of section 9, at the values the algorithm
  of section 4.2 names; the configuration's source is missing.\<close>

definition max_drive_hours :: rat where "max_drive_hours = 11"
definition max_window_hours :: rat where "max_window_hours = 14"
definition max_cycle_hours :: rat where "max_cycle_hours = 70"
definition break_threshold_hours :: rat where "break_threshold_hours = 8"
definition cycle_reset_hours :: rat where "cycle_reset_hours = 34"

text \<open>Modelled from the spec: the fixed duration of the two handling segments of
  section 4.1, at its default of 1.0 hour each; the sequencer's source is missing.\<close>

definition pickup_handling_hours :: rat where "pickup_handling_hours = 1"
definition dropoff_handling_hours :: rat where "dropoff_handling_hours = 1"

subsection \<open>The run of the engine\<close>

text \<open>
  Modelled from the spec: the state of one simulation run; the engine's source is
  missing. Beside the clock it holds the cumulative distance, the StopDecisions and the
  log entries emitted so far, both in order, and \<open>clocks\<close>: the clock as it stood after
  each log entry, kept so that a property of every point of the log can be stated.
\<close>

record Sim =
  clock :: DutyClock
  distance :: rat
  decisions :: "StopDecision list"
  eld_logs :: "EldLogEntry list"
  clocks :: "DutyClock list"

text \<open>Modelled from the spec: one event of the run (section 4.4: one log entry per
  status transition or stop event); the engine's source is missing.\<close>

definition record_step :: "StopDecision list \<Rightarrow> EldLogEntry \<Rightarrow> DutyClock \<Rightarrow> Sim \<Rightarrow> Sim" where
  "record_step ds e c s =
     s\<lparr>clock := c, decisions := decisions s @ ds, eld_logs := eld_logs s @ [e],
       clocks := clocks s @ [c]\<rparr>"

text \<open>Modelled from the spec: step 4 of section 4.2, a slice consumed as Driving: the
  four counters and the time advance by the slice length; the engine's source is
  missing. \<open>mph\<close> is the segment's distance over its duration.\<close>

definition consume_driving :: "rat \<Rightarrow> rat \<Rightarrow> Sim \<Rightarrow> Sim" where
  "consume_driving mph d s =
     (let c = clock s in
      (record_step []
        \<lparr>time = current_time c, status = Driving, hours_driven = d, remarks = ''Driving''\<rparr>
        (c\<lparr>drive_hours_today := drive_hours_today c + d,
           on_duty_window_hours := on_duty_window_hours c + d,
           cycle_hours_used := cycle_hours_used c + d,
           hours_since_break := hours_since_break c + d,
           current_time := current_time c + d,
           current_status := Driving\<rparr>) s)
       \<lparr>distance := distance s + mph * d\<rparr>)"

text \<open>Modelled from the spec: step 1 of section 4.2, the effects it lists
  (\<open>hours_since_break\<close> reset, half an hour passes, status OnDutyNotDriving, nothing
  counted toward the driving caps); the engine's source is missing.\<close>

definition thirty_minute_break :: "Sim \<Rightarrow> Sim" where
  "thirty_minute_break s =
     (let c = clock s in
      record_step
        [\<lparr>kind = ThirtyMinuteBreak, trigger_distance_miles = distance s, duration_hours = 1/2\<rparr>]
        \<lparr>time = current_time c, status = OnDutyNotDriving, hours_driven = 0,
          remarks = ''30-minute break''\<rparr>
        (c\<lparr>hours_since_break := 0,
           current_time := current_time c + 1/2,
           current_status := OnDutyNotDriving\<rparr>) s)"

text \<open>Modelled from the spec: step 2 of section 4.2, the daily rest: the three daily
  counters reset, ten hours pass, status SleeperBerth; the engine's source is missing.\<close>

definition daily_rest :: "Sim \<Rightarrow> Sim" where
  "daily_rest s =
     (let c = clock s in
      record_step
        [\<lparr>kind = DailyRest10h, trigger_distance_miles = distance s, duration_hours = 10\<rparr>]
        \<lparr>time = current_time c, status = SleeperBerth, hours_driven = 0,
          remarks = ''10-hour rest''\<rparr>
        (c\<lparr>drive_hours_today := 0,
           on_duty_window_hours := 0,
           hours_since_break := 0,
           current_time := current_time c + 10,
           current_status := SleeperBerth\<rparr>) s)"

text \<open>Modelled from the spec: step 3 of section 4.2, the cycle reset: the cycle counter
  and the daily counters reset, 34 hours pass, status OffDuty; the engine's source is
  missing.\<close>

definition cycle_reset :: "Sim \<Rightarrow> Sim" where
  "cycle_reset s =
     (let c = clock s in
      record_step
        [\<lparr>kind = CycleReset34h, trigger_distance_miles = distance s,
          duration_hours = cycle_reset_hours\<rparr>]
        \<lparr>time = current_time c, status = OffDuty, hours_driven = 0,
          remarks = ''34-hour reset''\<rparr>
        (c\<lparr>cycle_hours_used := 0,
           drive_hours_today := 0,
           on_duty_window_hours := 0,
           hours_since_break := 0,
           current_time := current_time c + cycle_reset_hours,
           current_status := OffDuty\<rparr>) s)"

text \<open>Modelled from the spec: step 5 of section 4.2, pickup and dropoff handling,
  emitted unconditionally: its duration counts toward the on-duty window and the cycle,
  not toward the driving cap; \<open>hours_since_break\<close> resets when the period lasts 30
  minutes or more (section 3). The engine's source is missing.\<close>

definition handling :: "StopKind \<Rightarrow> string \<Rightarrow> rat \<Rightarrow> Sim \<Rightarrow> Sim" where
  "handling k note u s =
     (let c = clock s in
      record_step [\<lparr>kind = k, trigger_distance_miles = distance s, duration_hours = u\<rparr>]
        \<lparr>time = current_time c, status = OnDutyNotDriving, hours_driven = 0, remarks = note\<rparr>
        (c\<lparr>on_duty_window_hours := on_duty_window_hours c + u,
           cycle_hours_used := cycle_hours_used c + u,
           hours_since_break := (if 1/2 \<le> u then 0 else hours_since_break c),
           current_time := current_time c + u,
           current_status := OnDutyNotDriving\<rparr>) s)"

text \<open>Modelled from the spec: the hours of driving left before each limit of section 4.2
  is reached (8 since the last break; 11 of driving or 14 of window; 70 of cycle), and
  before the nearest of them; the engine's source is missing.\<close>

definition break_room :: "DutyClock \<Rightarrow> rat" where
  "break_room c = break_threshold_hours - hours_since_break c"

definition daily_room :: "DutyClock \<Rightarrow> rat" where
  "daily_room c =
     min (max_drive_hours - drive_hours_today c) (max_window_hours - on_duty_window_hours c)"

definition cycle_room :: "DutyClock \<Rightarrow> rat" where
  "cycle_room c = max_cycle_hours - cycle_hours_used c"

definition room :: "DutyClock \<Rightarrow> rat" where
  "room c = min (break_room c) (min (daily_room c) (cycle_room c))"

text \<open>Modelled from the spec: the part of a slice driven up to the limit, when there is
  any; the engine's source is missing.\<close>

definition drive_up_to :: "rat \<Rightarrow> rat \<Rightarrow> Sim \<Rightarrow> Sim" where
  "drive_up_to mph h s = (if 0 < h then consume_driving mph h s else s)"

text \<open>
  Modelled from the spec: the loop of section 4.2 over the driving of one travel segment,
  \<open>r\<close> hours of it left; the engine's source is missing. The slice is what is left of
  the segment, cut where the nearest limit is reached, so that a stop is emitted at the
  exact moment a limit would otherwise be exceeded: a slice that reaches no limit before
  it completes is consumed as Driving (step 4); otherwise the engine drives up to the
  limit and emits the stop there (steps 1 to 3). Of limits reached at the same instant one
  stop is emitted, by the priority of the tie-break rule: the daily rest before the cycle
  reset before the thirty-minute break. Step 6, the fuel stop, is optional in the
  specification and is not part of this engine.
\<close>

function drive :: "rat \<Rightarrow> rat \<Rightarrow> Sim \<Rightarrow> Sim" where
  "drive mph r s =
     (if r \<le> 0 then s
      else if r \<le> room (clock s) then consume_driving mph r s
      else if daily_room (clock s) = room (clock s)
        then drive mph (r - max 0 (room (clock s)))
               (daily_rest (drive_up_to mph (room (clock s)) s))
      else if cycle_room (clock s) = room (clock s)
        then drive mph (r - max 0 (room (clock s)))
               (cycle_reset (drive_up_to mph (room (clock s)) s))
      else drive mph (r - max 0 (room (clock s)))
             (thirty_minute_break (drive_up_to mph (room (clock s)) s)))"
  by pat_completeness auto

text \<open>
  The loop ends on every input, whatever the clock holds. Each thirty-minute break is
  paid for by eight hours out of \<open>r + hours_since_break\<close>, which no other stop raises;
  and between two breaks there is at most one daily rest and one cycle reset, which
  \<open>rested\<close> counts down.
\<close>

definition rested :: "DutyClock \<Rightarrow> nat" where
  "rested c =
     (if drive_hours_today c = 0 \<and> on_duty_window_hours c = 0 \<and> hours_since_break c = 0
      then (if cycle_hours_used c = 0 then 0 else 1) else 2)"

lemma clock_record_step: "clock (record_step ds e c s) = c"
  by (simp add: record_step_def)

lemma clock_consume_driving:
  "clock (consume_driving mph d s) =
     (clock s)\<lparr>drive_hours_today := drive_hours_today (clock s) + d,
           on_duty_window_hours := on_duty_window_hours (clock s) + d,
           cycle_hours_used := cycle_hours_used (clock s) + d,
           hours_since_break := hours_since_break (clock s) + d,
           current_time := current_time (clock s) + d,
           current_status := Driving\<rparr>"
  by (simp add: consume_driving_def Let_def clock_record_step)

lemma clock_daily_rest:
  "clock (daily_rest s) =
     (clock s)\<lparr>drive_hours_today := 0, on_duty_window_hours := 0, hours_since_break := 0,
           current_time := current_time (clock s) + 10, current_status := SleeperBerth\<rparr>"
  by (simp add: daily_rest_def Let_def clock_record_step)

lemma clock_cycle_reset:
  "clock (cycle_reset s) =
     (clock s)\<lparr>cycle_hours_used := 0, drive_hours_today := 0, on_duty_window_hours := 0,
           hours_since_break := 0,
           current_time := current_time (clock s) + cycle_reset_hours, current_status := OffDuty\<rparr>"
  by (simp add: cycle_reset_def Let_def clock_record_step)

lemma clock_thirty_minute_break:
  "clock (thirty_minute_break s) =
     (clock s)\<lparr>hours_since_break := 0,
           current_time := current_time (clock s) + 1/2, current_status := OnDutyNotDriving\<rparr>"
  by (simp add: thirty_minute_break_def Let_def clock_record_step)

lemma rested_after_daily_rest: "rested (clock (daily_rest s)) \<le> 1"
  by (simp add: clock_daily_rest rested_def)

lemma rested_after_cycle_reset: "rested (clock (cycle_reset s)) = 0"
  by (simp add: clock_cycle_reset rested_def)

lemma rested_before_daily_rest: "daily_room c = room c \<Longrightarrow> rested c = 2"
  by (auto simp: rested_def room_def daily_room_def break_room_def
      max_drive_hours_def max_window_hours_def break_threshold_hours_def)

lemma rested_before_cycle_reset: "cycle_room c = room c \<Longrightarrow> 1 \<le> rested c"
  by (auto simp: rested_def room_def cycle_room_def break_room_def
      max_cycle_hours_def break_threshold_hours_def)

lemma since_break_after_daily_rest: "hours_since_break (clock (daily_rest s)) = 0"
  by (simp add: clock_daily_rest)

lemma since_break_after_cycle_reset: "hours_since_break (clock (cycle_reset s)) = 0"
  by (simp add: clock_cycle_reset)

lemma since_break_after_break: "hours_since_break (clock (thirty_minute_break s)) = 0"
  by (simp add: clock_thirty_minute_break)

lemma left_not_more:
  fixes r h x :: rat
  shows "nat \<lceil>r - max 0 h + max 0 0\<rceil> \<le> nat \<lceil>r + max 0 x\<rceil>"
  by (intro nat_mono ceiling_mono) simp

lemma left_less_after_break:
  fixes r x :: rat
  assumes "8 - x < r" "0 < r"
  shows "nat \<lceil>r - max 0 (8 - x) + max 0 0\<rceil> < nat \<lceil>r + max 0 x\<rceil>"
proof (cases "0 < 8 - x")
  case True
  have "r + x = (r - (8 - x)) + 8" by simp
  then have "\<lceil>r + x\<rceil> = \<lceil>r - (8 - x)\<rceil> + 8"
    by (simp only: ceiling_add_numeral)
  moreover have "0 < \<lceil>r - (8 - x)\<rceil>" using assms by simp
  moreover have "\<lceil>r + x\<rceil> \<le> \<lceil>r + max 0 x\<rceil>" by (intro ceiling_mono) simp
  ultimately show ?thesis using True by simp
next
  case False
  then have "r + 8 \<le> r + max 0 x" by simp
  then have "\<lceil>r + 8\<rceil> \<le> \<lceil>r + max 0 x\<rceil>" by (rule ceiling_mono)
  then have "\<lceil>r\<rceil> + 8 \<le> \<lceil>r + max 0 x\<rceil>" by (simp only: ceiling_add_numeral)
  moreover have "0 < \<lceil>r\<rceil>" using assms by simp
  ultimately show ?thesis using False by simp
qed

lemma first_stays_second_falls:
  fixes f g :: "'a \<Rightarrow> nat"
  shows "f x \<le> f y \<Longrightarrow> g x < g y \<Longrightarrow> (x, y) \<in> measures [f, g]"
  by auto

lemma first_falls:
  fixes f g :: "'a \<Rightarrow> nat"
  shows "f x < f y \<Longrightarrow> (x, y) \<in> measures [f, g]"
  by auto

termination drive
proof (relation "measures [\<lambda>(mph, r, s). nat \<lceil>r + max 0 (hours_since_break (clock s))\<rceil>,
                           \<lambda>(mph, r, s). rested (clock s)]", goal_cases)
  case 1
  then show ?case by simp
next
  case (2 mph r s)
  show ?case
  proof (rule first_stays_second_falls)
    show "(case (mph, r - max 0 (room (clock s)), daily_rest (drive_up_to mph (room (clock s)) s)) of
            (mph, r, s) \<Rightarrow> nat \<lceil>r + max 0 (hours_since_break (clock s))\<rceil>)
         \<le> (case (mph, r, s) of (mph, r, s) \<Rightarrow> nat \<lceil>r + max 0 (hours_since_break (clock s))\<rceil>)"
      using left_not_more [of r "room (clock s)" "hours_since_break (clock s)"]
      by (simp only: split_conv since_break_after_daily_rest)
    show "(case (mph, r - max 0 (room (clock s)), daily_rest (drive_up_to mph (room (clock s)) s)) of
            (mph, r, s) \<Rightarrow> rested (clock s))
         < (case (mph, r, s) of (mph, r, s) \<Rightarrow> rested (clock s))"
      using rested_after_daily_rest [of "drive_up_to mph (room (clock s)) s"]
        rested_before_daily_rest [OF 2(3)] by simp
  qed
next
  case (3 mph r s)
  show ?case
  proof (rule first_stays_second_falls)
    show "(case (mph, r - max 0 (room (clock s)), cycle_reset (drive_up_to mph (room (clock s)) s)) of
            (mph, r, s) \<Rightarrow> nat \<lceil>r + max 0 (hours_since_break (clock s))\<rceil>)
         \<le> (case (mph, r, s) of (mph, r, s) \<Rightarrow> nat \<lceil>r + max 0 (hours_since_break (clock s))\<rceil>)"
      using left_not_more [of r "room (clock s)" "hours_since_break (clock s)"]
      by (simp only: split_conv since_break_after_cycle_reset)
    show "(case (mph, r - max 0 (room (clock s)), cycle_reset (drive_up_to mph (room (clock s)) s)) of
            (mph, r, s) \<Rightarrow> rested (clock s))
         < (case (mph, r, s) of (mph, r, s) \<Rightarrow> rested (clock s))"
      using rested_after_cycle_reset [of "drive_up_to mph (room (clock s)) s"]
        rested_before_cycle_reset [OF 3(4)] by simp
  qed
next
  case (4 mph r s)
  have "room (clock s) = break_room (clock s)"
    using 4(3,4) by (auto simp: room_def min_def split: if_splits)
  then have eq: "room (clock s) = 8 - hours_since_break (clock s)"
    by (simp add: break_room_def break_threshold_hours_def)
  have "0 < r" "room (clock s) < r" using 4 by simp_all
  then have "nat \<lceil>r - max 0 (room (clock s)) + max 0 0\<rceil>
      < nat \<lceil>r + max 0 (hours_since_break (clock s))\<rceil>"
    using left_less_after_break [of "hours_since_break (clock s)" r] by (simp only: eq)
  then show ?case
    by (intro first_falls) (simp only: split_conv since_break_after_break)
qed

declare drive.simps [simp del]

text \<open>Modelled from the spec: the engine on one segment: a travel segment is driven, a
  pickup or dropoff segment is handled (section 4.2, step 5); the engine's source is
  missing.\<close>

fun run_segment :: "Sim \<Rightarrow> RouteSegment \<Rightarrow> Sim" where
  "run_segment s seg =
     (case purpose seg of
        travel \<Rightarrow>
          if 0 < drive_duration_hours seg
          then drive (distance_miles seg / drive_duration_hours seg) (drive_duration_hours seg) s
          else s
      | pickup \<Rightarrow>
          handling PickupHandling ''Reached pickup location'' (drive_duration_hours seg) s
      | dropoff \<Rightarrow>
          handling DropoffHandling ''Reached dropoff location'' (drive_duration_hours seg) s)"

text \<open>Modelled from the spec: the clock a run starts from: the daily counters at zero,
  the cycle hours carried in from the request; the engine's source is missing.\<close>

definition initial_clock :: "rat \<Rightarrow> rat \<Rightarrow> DutyClock" where
  "initial_clock start used =
     \<lparr>drive_hours_today = 0, on_duty_window_hours = 0, cycle_hours_used = used,
      hours_since_break = 0, current_time = start, current_status = OffDuty\<rparr>"

text \<open>Modelled from the spec: the state a run starts from: nothing driven, nothing
  emitted; the engine's source is missing.\<close>

definition initial_sim :: "rat \<Rightarrow> rat \<Rightarrow> Sim" where
  "initial_sim start used =
     \<lparr>clock = initial_clock start used, distance = 0, decisions = [], eld_logs = [],
      clocks = []\<rparr>"

text \<open>Modelled from the spec: the simulation of a trip, segment by segment, from the
  trip's start time and \<open>current_cycle_used\<close>; the engine's source is missing.\<close>

definition simulate :: "rat \<Rightarrow> rat \<Rightarrow> RouteSegment list \<Rightarrow> Sim" where
  "simulate start used segs = foldl run_segment (initial_sim start used) segs"

subsection \<open>The waypoint sequencer (specification, section 4.1)\<close>

text \<open>Modelled from the spec: the sequencer's failure; its source is missing.\<close>

datatype sequencer_error = InvalidRoute

text \<open>Modelled from the spec: a leg with non-positive distance and nonzero duration, or
  the other way round; the sequencer's source is missing.\<close>

definition inconsistent_leg :: "RouteSegment \<Rightarrow> bool" where
  "inconsistent_leg leg =
     ((distance_miles leg \<le> 0 \<and> drive_duration_hours leg \<noteq> 0)
      \<or> (drive_duration_hours leg \<le> 0 \<and> distance_miles leg \<noteq> 0))"

text \<open>Modelled from the spec: the sequencer: the two legs in order, each followed by its
  handling segment of zero distance and fixed duration; the sequencer's source is
  missing.\<close>

definition sequence_legs :: "RouteSegment \<Rightarrow> RouteSegment \<Rightarrow> sequencer_error + RouteSegment list" where
  "sequence_legs leg1 leg2 =
     (if inconsistent_leg leg1 \<or> inconsistent_leg leg2 then Inl InvalidRoute
      else Inr
        [leg1\<lparr>purpose := travel\<rparr>,
         \<lparr>distance_miles = 0, drive_duration_hours = pickup_handling_hours, purpose = pickup\<rparr>,
         leg2\<lparr>purpose := travel\<rparr>,
         \<lparr>distance_miles = 0, drive_duration_hours = dropoff_handling_hours, purpose = dropoff\<rparr>])"

subsection \<open>Replaying the log\<close>

text \<open>
  The driving since the last qualifying break, read off the log alone. The state of the
  replay is the hours accumulated and the last entry read; how long a non-driving entry
  lasted is known when the next entry gives its time, and \<open>settled\<close> applies the reset
  then, when the entry lasted thirty minutes or more.
\<close>

definition settled :: "rat \<times> EldLogEntry option \<Rightarrow> rat \<Rightarrow> rat" where
  "settled st t =
     (case snd st of
        None \<Rightarrow> fst st
      | Some p \<Rightarrow> if status p \<noteq> Driving \<and> 1/2 \<le> t - time p then 0 else fst st)"

definition replay_entry :: "rat \<times> EldLogEntry option \<Rightarrow> EldLogEntry \<Rightarrow> rat \<times> EldLogEntry option" where
  "replay_entry st e =
     (if status e = Driving then settled st (time e) + hours_driven e else settled st (time e),
      Some e)"

definition replay :: "EldLogEntry list \<Rightarrow> rat \<times> EldLogEntry option" where
  "replay es = foldl replay_entry (0, None) es"

definition driving_since_break :: "EldLogEntry list \<Rightarrow> rat" where
  "driving_since_break es = fst (replay es)"

text \<open>The driving since the last rest, read off the log: a SleeperBerth entry (the
  ten-hour rest) or an OffDuty entry (the 34-hour reset) starts the count again.\<close>

definition rest_entry :: "rat \<Rightarrow> EldLogEntry \<Rightarrow> rat" where
  "rest_entry acc e =
     (if status e = Driving then acc + hours_driven e
      else if status e = SleeperBerth \<or> status e = OffDuty then 0
      else acc)"

definition driving_since_rest :: "EldLogEntry list \<Rightarrow> rat" where
  "driving_since_rest es = foldl rest_entry 0 es"

text \<open>The hours of driving a segment asks for, and those a log records.\<close>

definition travel_hours :: "RouteSegment \<Rightarrow> rat" where
  "travel_hours seg = (if purpose seg = travel then max 0 (drive_duration_hours seg) else 0)"

definition logged_driving :: "EldLogEntry list \<Rightarrow> rat" where
  "logged_driving es = sum_list (map hours_driven es)"

subsection \<open>Invariants of a run\<close>

text \<open>The break counter of the clock is what the replay of the log gives once the
  last entry's duration is known; no prefix of the log replays to more than 8 hours, and
  a thirty-minute break is logged where the replay stands at exactly 8.\<close>

definition log_ok :: "Sim \<Rightarrow> bool" where
  "log_ok s =
     (hours_since_break (clock s) = settled (replay (eld_logs s)) (current_time (clock s))
      \<and> hours_since_break (clock s) \<le> 8
      \<and> (\<forall>n \<le> length (eld_logs s). driving_since_break (take n (eld_logs s)) \<le> 8)
      \<and> (\<forall>i < length (eld_logs s). remarks (eld_logs s ! i) = ''30-minute break''
            \<longrightarrow> driving_since_break (take (Suc i) (eld_logs s)) = 8))"

text \<open>\<open>k\<close> is the handling time that may have gone into the window since the last rest.\<close>

definition caps_ok :: "rat \<Rightarrow> Sim \<Rightarrow> bool" where
  "caps_ok k s =
     (0 \<le> k \<and> k \<le> 3
      \<and> 0 \<le> drive_hours_today (clock s) \<and> drive_hours_today (clock s) \<le> 11
      \<and> drive_hours_today (clock s) \<le> on_duty_window_hours (clock s)
      \<and> on_duty_window_hours (clock s) \<le> drive_hours_today (clock s) + k
      \<and> drive_hours_today (clock s) = driving_since_rest (eld_logs s)
      \<and> length (clocks s) = length (eld_logs s)
      \<and> (\<forall>c \<in> set (clocks s). drive_hours_today c \<le> 11 \<and> on_duty_window_hours c \<le> 14)
      \<and> (\<forall>n \<le> length (eld_logs s). driving_since_rest (take n (eld_logs s)) \<le> 11))"

section \<open>Properties of the client\<close>

lemma member_array_is_object:
  "member v k = Inr (JArr xs) \<Longrightarrow> \<exists>kvs. v = JObj kvs"
  by (cases v) auto

lemma member_object_is_object:
  "member v k = Inr (JObj ps) \<Longrightarrow> \<exists>kvs. v = JObj kvs"
  by (cases v) auto

lemma js_or_truthy: "truthy b \<Longrightarrow> truthy (js_or a b)"
  by (simp add: js_or_def)

lemma length_markers: "length (markers cs) = length cs"
  by (simp add: markers_def)

lemma nth_markers:
  "i < length cs \<Longrightarrow> markers cs ! i = \<lparr>key = i, position = cs ! i, popup = popup_label i\<rparr>"
  by (simp add: markers_def nth_enumerate_eq)

text \<open>
  C9. When \<open>results.route.coordinates\<close> is a non-empty array, \<open>getMapCenter\<close> returns its
  first element; when \<open>results\<close>, \<open>results.route\<close> or \<open>results.route.coordinates\<close> is
  absent (or falsy in any other way) it returns the fixed centre \<open>[39.8283, -98.5795]\<close>;
  and when the array is there but empty, the unguarded \<open>coords[0]\<close> makes it return
  \<open>undefined\<close>, not the centre.
\<close>

theorem getMapCenter_cases:
  "(member res ''route'' = Inr route \<and> member route ''coordinates'' = Inr (JArr (c # cs))
      \<longrightarrow> getMapCenter res = Inr c)
   \<and> (\<not> truthy res
        \<or> (member res ''route'' = Inr route \<and> \<not> truthy route)
        \<or> (member res ''route'' = Inr route \<and> truthy route
             \<and> member route ''coordinates'' = Inr coords \<and> \<not> truthy coords)
      \<longrightarrow> getMapCenter res = Inr usa_center)
   \<and> (member res ''route'' = Inr route \<and> member route ''coordinates'' = Inr (JArr [])
      \<longrightarrow> getMapCenter res = Inr JUndefined)
   \<and> usa_center = JArr [JNum (398283 / 10000), JNum (- (985795 / 10000))]"
proof (intro conjI impI)
  assume h: "member res ''route'' = Inr route \<and> member route ''coordinates'' = Inr (JArr (c # cs))"
  then obtain ps where "route = JObj ps" using member_array_is_object by blast
  moreover from this h obtain kvs where "res = JObj kvs"
    using member_object_is_object by blast
  ultimately show "getMapCenter res = Inr c"
    using h by (simp add: getMapCenter_def)
next
  assume "\<not> truthy res
        \<or> (member res ''route'' = Inr route \<and> \<not> truthy route)
        \<or> (member res ''route'' = Inr route \<and> truthy route
             \<and> member route ''coordinates'' = Inr coords \<and> \<not> truthy coords)"
  then show "getMapCenter res = Inr usa_center"
    by (auto simp: getMapCenter_def)
next
  assume h: "member res ''route'' = Inr route \<and> member route ''coordinates'' = Inr (JArr [])"
  then obtain ps where "route = JObj ps" using member_array_is_object by blast
  moreover from this h obtain kvs where "res = JObj kvs"
    using member_object_is_object by blast
  ultimately show "getMapCenter res = Inr JUndefined"
    using h by (simp add: getMapCenter_def)
next
  show "usa_center = JArr [JNum (398283 / 10000), JNum (- (985795 / 10000))]"
    by (simp add: usa_center_def)
qed

theorem getMapCenter_cases_witness:
  "getMapCenter (JObj [(''route'', JObj [(''coordinates'', JArr [JArr [JNum 41, JNum (- 87)], JNull])])])
     = Inr (JArr [JNum 41, JNum (- 87)])
   \<and> getMapCenter JNull = Inr usa_center
   \<and> getMapCenter (JObj [(''total_distance'', JNum 5)]) = Inr usa_center
   \<and> getMapCenter (JObj [(''route'', JObj [(''coordinates'', JNull)])]) = Inr usa_center
   \<and> getMapCenter (JObj [(''route'', JObj [(''coordinates'', JArr [])])]) = Inr JUndefined"
proof (intro conjI)
  show "getMapCenter (JObj [(''route'', JObj [(''coordinates'', JArr [JArr [JNum 41, JNum (- 87)], JNull])])])
     = Inr (JArr [JNum 41, JNum (- 87)])"
    using getMapCenter_cases
      [of "JObj [(''route'', JObj [(''coordinates'', JArr [JArr [JNum 41, JNum (- 87)], JNull])])]"
          "JObj [(''coordinates'', JArr [JArr [JNum 41, JNum (- 87)], JNull])]"
          "JArr [JNum 41, JNum (- 87)]" "[JNull]"]
    by simp
  show "getMapCenter JNull = Inr usa_center"
    using getMapCenter_cases [of JNull] by simp
  show "getMapCenter (JObj [(''total_distance'', JNum 5)]) = Inr usa_center"
    using getMapCenter_cases [of "JObj [(''total_distance'', JNum 5)]" JUndefined]
    by simp
  show "getMapCenter (JObj [(''route'', JObj [(''coordinates'', JNull)])]) = Inr usa_center"
    using getMapCenter_cases
      [of "JObj [(''route'', JObj [(''coordinates'', JNull)])]" "JObj [(''coordinates'', JNull)]"
          _ _ JNull]
    by simp
  show "getMapCenter (JObj [(''route'', JObj [(''coordinates'', JArr [])])]) = Inr JUndefined"
    using getMapCenter_cases
      [of "JObj [(''route'', JObj [(''coordinates'', JArr [])])]" "JObj [(''coordinates'', JArr [])]"]
    by simp
qed

text \<open>
  C10. The popup text of a marker depends on nothing but its position in
  \<open>route.coordinates\<close>: \<open>Current Location\<close> at index 0, \<open>Pickup\<close> at index 1 and
  \<open>Dropoff\<close> at every index from 2 on, so with more than three points every point after
  the second is labelled \<open>Dropoff\<close>.
\<close>

theorem marker_label_by_index:
  assumes "member res ''route'' = Inr route"
    and "member route ''coordinates'' = Inr (JArr cs)"
  shows "render_markers res = Inr (markers cs)
    \<and> length (markers cs) = length cs
    \<and> (\<forall>i < length cs.
          key (markers cs ! i) = i
        \<and> position (markers cs ! i) = cs ! i
        \<and> popup (markers cs ! i) =
            (if i = 0 then ''Current Location'' else if i = 1 then ''Pickup'' else ''Dropoff'')
        \<and> (2 \<le> i \<longrightarrow> popup (markers cs ! i) = ''Dropoff'')
        \<and> (\<forall>cs'. i < length cs' \<longrightarrow> popup (markers cs' ! i) = popup (markers cs ! i)))"
proof -
  obtain ps where r: "route = JObj ps"
    using assms(2) member_array_is_object by blast
  obtain kvs where "res = JObj kvs"
    using assms(1) r member_object_is_object by blast
  then have "render_markers res = Inr (markers cs)"
    using assms r by (simp add: render_markers_def)
  then show ?thesis
    by (simp add: length_markers nth_markers popup_label_def)
qed

theorem marker_label_by_index_witness:
  "render_markers (JObj [(''route'', JObj [(''coordinates'',
       JArr [JStr ''a'', JStr ''b'', JStr ''c'', JStr ''d'', JStr ''e''])])])
     = Inr (markers [JStr ''a'', JStr ''b'', JStr ''c'', JStr ''d'', JStr ''e''])
   \<and> map popup (markers [JStr ''a'', JStr ''b'', JStr ''c'', JStr ''d'', JStr ''e''])
     = [''Current Location'', ''Pickup'', ''Dropoff'', ''Dropoff'', ''Dropoff'']
   \<and> popup (markers [JStr ''a'', JStr ''b'', JStr ''c'', JStr ''d'', JStr ''e''] ! 3) = ''Dropoff''"
proof -
  let ?cs = "[JStr ''a'', JStr ''b'', JStr ''c'', JStr ''d'', JStr ''e'']"
  let ?route = "JObj [(''coordinates'', JArr ?cs)]"
  have a: "member (JObj [(''route'', ?route)]) ''route'' = Inr ?route" by simp
  have b: "member ?route ''coordinates'' = Inr (JArr ?cs)" by simp
  have m: "map popup (markers ?cs)
      = [''Current Location'', ''Pickup'', ''Dropoff'', ''Dropoff'', ''Dropoff'']"
    by (simp add: markers_def popup_label_def)
  from marker_label_by_index [OF a b]
  have "render_markers (JObj [(''route'', ?route)]) = Inr (markers ?cs)"
    and "\<forall>i < length ?cs. 2 \<le> i \<longrightarrow> popup (markers ?cs ! i) = ''Dropoff''"
    by blast+
  then show ?thesis using m by simp
qed

text \<open>
  What the handler keeps of a request, whatever the state before it: the results and the
  error are cleared first; a rejection leaves \<open>results\<close> at \<open>null\<close> and stores the
  server's \<open>error\<close> value when it is truthy, the fixed text otherwise; a resolution
  stores \<open>response.data\<close> as it came and leaves the error empty.
\<close>

lemma handleSubmit_state:
  "results (begin_submit s) = JNull \<and> error (begin_submit s) = JStr '''' \<and> loading (begin_submit s)
   \<and> results (handleSubmit (Rejected err) s) = JNull
   \<and> error (handleSubmit (Rejected err) s)
       = js_or (opt_member (opt_member (opt_member (JObj err) ''response'') ''data'') ''error'')
           failure_text
   \<and> truthy (error (handleSubmit (Rejected err) s))
   \<and> \<not> loading (handleSubmit (Rejected err) s)
   \<and> results (handleSubmit (Resolved d) s) = d
   \<and> error (handleSubmit (Resolved d) s) = JStr ''''
   \<and> \<not> loading (handleSubmit (Resolved d) s)
   \<and> handleSubmit out s = handleSubmit out initial_state"
proof -
  have f: "truthy failure_text" by (simp add: failure_text_def)
  have "handleSubmit out s = handleSubmit out initial_state"
    by (cases out) (simp_all add: handleSubmit_def begin_submit_def initial_state_def)
  then show ?thesis
    using js_or_truthy [OF f]
    by (simp add: handleSubmit_def begin_submit_def)
qed

text \<open>The error line shows the stored value exactly when React accepts it as a child.\<close>

lemma render_error_after_rejection:
  "render_error (handleSubmit (Rejected err) s) =
     (if valid_child (error (handleSubmit (Rejected err) s))
      then Inr (ErrorMessage (error (handleSubmit (Rejected err) s)))
      else Inl ObjectAsChild)"
proof -
  have "truthy (error (handleSubmit (Rejected err) s))"
    using handleSubmit_state [of s err] by blast
  then show ?thesis by (simp only: render_error_def if_True)
qed


section \<open>Properties of the rule engine\<close>

subsection \<open>What one event does to the log and the clock\<close>

lemma eld_logs_record_step: "eld_logs (record_step ds e c s) = eld_logs s @ [e]"
  by (simp add: record_step_def)

lemma clocks_record_step: "clocks (record_step ds e c s) = clocks s @ [c]"
  by (simp add: record_step_def)

lemma replay_snoc: "replay (es @ [e]) = replay_entry (replay es) e"
  by (simp add: replay_def)

lemma driving_since_rest_snoc:
  "driving_since_rest (es @ [e]) = rest_entry (driving_since_rest es) e"
  by (simp add: driving_since_rest_def)

lemma room_le_break_room: "room c \<le> break_room c"
  by (simp add: room_def)

lemma room_le_daily_room: "room c \<le> daily_room c"
  by (simp add: room_def)

lemma since_break_drive_up_to:
  "hours_since_break (clock (drive_up_to mph h s)) =
     (if 0 < h then hours_since_break (clock s) + h else hours_since_break (clock s))"
  by (simp add: drive_up_to_def clock_consume_driving)

subsection \<open>The break counter and the log agree\<close>

lemma log_ok_initial: "log_ok (initial_sim start used)"
  by (simp add: log_ok_def initial_sim_def initial_clock_def replay_def settled_def
      driving_since_break_def)

lemma log_ok_record_step:
  assumes ok: "log_ok s"
    and t: "time e = current_time (clock s)"
    and drv: "status e = Driving \<Longrightarrow>
        hours_since_break c = hours_since_break (clock s) + hours_driven e
        \<and> hours_since_break c \<le> 8"
    and stop: "status e \<noteq> Driving \<Longrightarrow>
        hours_since_break c =
          (if 1/2 \<le> current_time c - current_time (clock s) then 0 else hours_since_break (clock s))"
    and brk: "remarks e = ''30-minute break'' \<Longrightarrow>
        status e \<noteq> Driving \<and> hours_since_break (clock s) = 8"
  shows "log_ok (record_step ds e c s)"
proof -
  let ?es = "eld_logs s"
  have cur: "hours_since_break (clock s) = settled (replay ?es) (time e)"
    using ok t by (simp add: log_ok_def)
  have le8: "hours_since_break (clock s) \<le> 8" using ok by (simp add: log_ok_def)
  have whole: "driving_since_break (?es @ [e]) =
      (if status e = Driving then hours_since_break c else hours_since_break (clock s))"
    using cur drv by (simp add: driving_since_break_def replay_snoc replay_entry_def)
  have c8: "hours_since_break c \<le> 8"
    using drv stop le8 by (cases "status e = Driving") auto
  have a: "hours_since_break c = settled (replay (?es @ [e])) (current_time c)"
  proof (cases "status e = Driving")
    case True
    then show ?thesis
      using cur drv by (simp add: replay_snoc replay_entry_def settled_def)
  next
    case False
    then show ?thesis
      using cur stop t by (simp add: replay_snoc replay_entry_def settled_def)
  qed
  have b: "\<forall>n \<le> length (?es @ [e]). driving_since_break (take n (?es @ [e])) \<le> 8"
  proof (intro allI impI)
    fix n assume n: "n \<le> length (?es @ [e])"
    show "driving_since_break (take n (?es @ [e])) \<le> 8"
    proof (cases "n \<le> length ?es")
      case True
      then show ?thesis using ok by (simp add: log_ok_def)
    next
      case False
      then have "take n (?es @ [e]) = ?es @ [e]" using n by simp
      then show ?thesis using whole c8 le8 by simp
    qed
  qed
  have d: "\<forall>i < length (?es @ [e]). remarks ((?es @ [e]) ! i) = ''30-minute break''
            \<longrightarrow> driving_since_break (take (Suc i) (?es @ [e])) = 8"
  proof (intro allI impI)
    fix i assume i: "i < length (?es @ [e])"
      and r: "remarks ((?es @ [e]) ! i) = ''30-minute break''"
    show "driving_since_break (take (Suc i) (?es @ [e])) = 8"
    proof (cases "i < length ?es")
      case True
      then show ?thesis using ok r by (simp add: log_ok_def nth_append)
    next
      case False
      then have eq: "i = length ?es" using i by simp
      then have "remarks e = ''30-minute break''" using r by simp
      then show ?thesis using brk whole eq by simp
    qed
  qed
  show ?thesis
    unfolding log_ok_def
    using a b c8 d by (simp only: eld_logs_record_step clock_record_step)
qed

lemma log_ok_distance_update: "log_ok (s\<lparr>distance := x\<rparr>) = log_ok s"
  by (simp add: log_ok_def)

lemma log_ok_consume_driving:
  assumes "log_ok s" "d \<le> break_room (clock s)"
  shows "log_ok (consume_driving mph d s)"
  unfolding consume_driving_def Let_def log_ok_distance_update
  using assms
  by (intro log_ok_record_step) (simp_all add: break_room_def break_threshold_hours_def)

lemma log_ok_daily_rest: "log_ok s \<Longrightarrow> log_ok (daily_rest s)"
  unfolding daily_rest_def Let_def
  by (intro log_ok_record_step) simp_all

lemma log_ok_cycle_reset: "log_ok s \<Longrightarrow> log_ok (cycle_reset s)"
  unfolding cycle_reset_def Let_def
  by (intro log_ok_record_step) (simp_all add: cycle_reset_hours_def)

lemma log_ok_thirty_minute_break:
  "log_ok s \<Longrightarrow> hours_since_break (clock s) = 8 \<Longrightarrow> log_ok (thirty_minute_break s)"
  unfolding thirty_minute_break_def Let_def
  by (intro log_ok_record_step) simp_all

lemma log_ok_handling:
  "log_ok s \<Longrightarrow> note \<noteq> ''30-minute break'' \<Longrightarrow> log_ok (handling k note u s)"
  unfolding handling_def Let_def
  by (intro log_ok_record_step) simp_all

lemma log_ok_drive_up_to:
  "log_ok s \<Longrightarrow> h \<le> break_room (clock s) \<Longrightarrow> log_ok (drive_up_to mph h s)"
  by (simp add: drive_up_to_def log_ok_consume_driving)

lemma log_ok_drive: "log_ok s \<Longrightarrow> log_ok (drive mph r s)"
proof (induction mph r s rule: drive.induct)
  case (1 mph r s)
  let ?h = "room (clock s)"
  let ?s = "drive_up_to mph ?h s"
  have up: "log_ok ?s"
    using "1.prems" room_le_break_room by (intro log_ok_drive_up_to)
  show ?case
  proof (cases "r \<le> 0")
    case True
    then show ?thesis using "1.prems" by (simp add: drive.simps [of mph r s])
  next
    case pos: False
    show ?thesis
    proof (cases "r \<le> ?h")
      case True
      then have "r \<le> break_room (clock s)"
        using room_le_break_room [of "clock s"] by simp
      then show ?thesis
        using pos True "1.prems" by (simp add: drive.simps [of mph r s] log_ok_consume_driving)
    next
      case far: False
      show ?thesis
      proof (cases "daily_room (clock s) = ?h")
        case True
        then show ?thesis
          using pos far "1.IH"(1) up by (simp add: drive.simps [of mph r s] log_ok_daily_rest)
      next
        case nd: False
        show ?thesis
        proof (cases "cycle_room (clock s) = ?h")
          case True
          then show ?thesis
            using pos far nd "1.IH"(2) up
            by (simp add: drive.simps [of mph r s] log_ok_cycle_reset)
        next
          case nc: False
          have "?h = break_room (clock s)"
            using nd nc by (auto simp: room_def min_def split: if_splits)
          then have h: "?h = 8 - hours_since_break (clock s)"
            by (simp add: break_room_def break_threshold_hours_def)
          have "hours_since_break (clock s) \<le> 8" using "1.prems" by (simp add: log_ok_def)
          then have "hours_since_break (clock ?s) = 8"
            using h by (simp add: since_break_drive_up_to)
          then have "log_ok (thirty_minute_break ?s)"
            using up by (intro log_ok_thirty_minute_break)
          then show ?thesis
            using pos far nd nc "1.IH"(3) by (simp add: drive.simps [of mph r s])
        qed
      qed
    qed
  qed
qed

lemma log_ok_run_segment: "log_ok s \<Longrightarrow> log_ok (run_segment s seg)"
  by (cases "purpose seg") (simp_all add: log_ok_drive log_ok_handling)

lemma log_ok_foldl: "log_ok s \<Longrightarrow> log_ok (foldl run_segment s segs)"
  by (induction segs arbitrary: s) (simp_all add: log_ok_run_segment del: run_segment.simps)

lemma log_ok_simulate: "log_ok (simulate start used segs)"
  by (simp add: simulate_def log_ok_foldl log_ok_initial)

subsection \<open>All the driving is logged\<close>

lemma logged_driving_snoc: "logged_driving (es @ [e]) = logged_driving es + hours_driven e"
  by (simp add: logged_driving_def)

lemma logged_consume_driving:
  "logged_driving (eld_logs (consume_driving mph d s)) = logged_driving (eld_logs s) + d"
  by (simp add: consume_driving_def Let_def eld_logs_record_step logged_driving_snoc)

lemma logged_drive_up_to:
  "logged_driving (eld_logs (drive_up_to mph h s)) = logged_driving (eld_logs s) + max 0 h"
  by (simp add: drive_up_to_def logged_consume_driving)

lemma logged_daily_rest: "logged_driving (eld_logs (daily_rest s)) = logged_driving (eld_logs s)"
  by (simp add: daily_rest_def Let_def eld_logs_record_step logged_driving_snoc)

lemma logged_cycle_reset: "logged_driving (eld_logs (cycle_reset s)) = logged_driving (eld_logs s)"
  by (simp add: cycle_reset_def Let_def eld_logs_record_step logged_driving_snoc)

lemma logged_thirty_minute_break:
  "logged_driving (eld_logs (thirty_minute_break s)) = logged_driving (eld_logs s)"
  by (simp add: thirty_minute_break_def Let_def eld_logs_record_step logged_driving_snoc)

lemma logged_handling:
  "logged_driving (eld_logs (handling k note u s)) = logged_driving (eld_logs s)"
  by (simp add: handling_def Let_def eld_logs_record_step logged_driving_snoc)

lemma logged_drive:
  "logged_driving (eld_logs (drive mph r s)) = logged_driving (eld_logs s) + max 0 r"
proof (induction mph r s rule: drive.induct)
  case (1 mph r s)
  let ?h = "room (clock s)"
  show ?case
  proof (cases "r \<le> 0")
    case True
    then show ?thesis by (simp add: drive.simps [of mph r s])
  next
    case pos: False
    show ?thesis
    proof (cases "r \<le> ?h")
      case True
      then show ?thesis
        using pos by (simp add: drive.simps [of mph r s] logged_consume_driving)
    next
      case far: False
      then have rest: "max 0 (r - max 0 ?h) + max 0 ?h = max 0 r"
        using pos by simp
      show ?thesis
      proof (cases "daily_room (clock s) = ?h")
        case True
        then show ?thesis
          using pos far "1.IH"(1) rest
          by (simp add: drive.simps [of mph r s] logged_daily_rest logged_drive_up_to)
      next
        case nd: False
        show ?thesis
        proof (cases "cycle_room (clock s) = ?h")
          case True
          then show ?thesis
            using pos far nd "1.IH"(2) rest
            by (simp add: drive.simps [of mph r s] logged_cycle_reset logged_drive_up_to)
        next
          case nc: False
          then show ?thesis
            using pos far nd "1.IH"(3) rest
            by (simp add: drive.simps [of mph r s] logged_thirty_minute_break logged_drive_up_to)
        qed
      qed
    qed
  qed
qed

lemma logged_run_segment:
  "logged_driving (eld_logs (run_segment s seg)) = logged_driving (eld_logs s) + travel_hours seg"
  by (cases "purpose seg") (simp_all add: logged_drive logged_handling travel_hours_def)

lemma logged_foldl:
  "logged_driving (eld_logs (foldl run_segment s segs))
     = logged_driving (eld_logs s) + sum_list (map travel_hours segs)"
  by (induction segs arbitrary: s) (simp_all add: logged_run_segment del: run_segment.simps)

lemma logged_simulate:
  "logged_driving (eld_logs (simulate start used segs)) = sum_list (map travel_hours segs)"
proof -
  have "logged_driving (eld_logs (initial_sim start used)) = 0"
    by (simp add: initial_sim_def logged_driving_def)
  then show ?thesis by (simp add: simulate_def logged_foldl)
qed

subsection \<open>The daily caps\<close>

lemma caps_ok_initial: "caps_ok 0 (initial_sim start used)"
  by (simp add: caps_ok_def initial_sim_def initial_clock_def driving_since_rest_def)

lemma caps_ok_record_step:
  assumes ok: "caps_ok k s"
    and k': "k \<le> k'" "k' \<le> 3"
    and d0: "0 \<le> drive_hours_today c" and d11: "drive_hours_today c \<le> 11"
    and dw: "drive_hours_today c \<le> on_duty_window_hours c"
    and wk: "on_duty_window_hours c \<le> drive_hours_today c + k'"
    and log: "drive_hours_today c = rest_entry (drive_hours_today (clock s)) e"
  shows "caps_ok k' (record_step ds e c s)"
proof -
  have w14: "on_duty_window_hours c \<le> 14" using wk d11 k' by simp
  have whole: "driving_since_rest (eld_logs s @ [e]) = drive_hours_today c"
    using ok log by (simp add: driving_since_rest_snoc caps_ok_def)
  have pre: "\<forall>n \<le> length (eld_logs s @ [e]). driving_since_rest (take n (eld_logs s @ [e])) \<le> 11"
  proof (intro allI impI)
    fix n assume n: "n \<le> length (eld_logs s @ [e])"
    show "driving_since_rest (take n (eld_logs s @ [e])) \<le> 11"
    proof (cases "n \<le> length (eld_logs s)")
      case True
      then show ?thesis using ok by (simp add: caps_ok_def)
    next
      case False
      then have "take n (eld_logs s @ [e]) = eld_logs s @ [e]" using n by simp
      then show ?thesis using whole d11 by simp
    qed
  qed
  have "0 \<le> k'" using ok k' by (simp add: caps_ok_def)
  moreover have "length (clocks s @ [c]) = length (eld_logs s @ [e])"
    using ok by (simp add: caps_ok_def)
  moreover have "\<forall>x \<in> set (clocks s @ [c]). drive_hours_today x \<le> 11 \<and> on_duty_window_hours x \<le> 14"
    using ok d11 w14 by (auto simp: caps_ok_def)
  ultimately show ?thesis
    unfolding caps_ok_def
    using k' d0 d11 dw wk whole pre
    by (simp only: eld_logs_record_step clock_record_step clocks_record_step simp_thms)
qed

lemma caps_ok_distance_update: "caps_ok k (s\<lparr>distance := x\<rparr>) = caps_ok k s"
  by (simp add: caps_ok_def)

lemma caps_ok_consume_driving:
  assumes "caps_ok k s" "0 \<le> d" "d \<le> daily_room (clock s)"
  shows "caps_ok k (consume_driving mph d s)"
  unfolding consume_driving_def Let_def caps_ok_distance_update
  using assms
  by (intro caps_ok_record_step [where k = k])
    (auto simp: caps_ok_def daily_room_def max_drive_hours_def max_window_hours_def rest_entry_def)

lemma caps_ok_daily_rest: "caps_ok k s \<Longrightarrow> caps_ok k (daily_rest s)"
  unfolding daily_rest_def Let_def
  by (intro caps_ok_record_step [where k = k]) (auto simp: caps_ok_def rest_entry_def)

lemma caps_ok_cycle_reset: "caps_ok k s \<Longrightarrow> caps_ok k (cycle_reset s)"
  unfolding cycle_reset_def Let_def
  by (intro caps_ok_record_step [where k = k]) (auto simp: caps_ok_def rest_entry_def)

lemma caps_ok_thirty_minute_break: "caps_ok k s \<Longrightarrow> caps_ok k (thirty_minute_break s)"
  unfolding thirty_minute_break_def Let_def
  by (intro caps_ok_record_step [where k = k]) (auto simp: caps_ok_def rest_entry_def)

lemma caps_ok_handling:
  "caps_ok k s \<Longrightarrow> 0 \<le> u \<Longrightarrow> k + u \<le> 3 \<Longrightarrow> caps_ok (k + u) (handling kd note u s)"
  unfolding handling_def Let_def
  by (intro caps_ok_record_step [where k = k]) (auto simp: caps_ok_def rest_entry_def)

lemma caps_ok_drive_up_to:
  "caps_ok k s \<Longrightarrow> h \<le> daily_room (clock s) \<Longrightarrow> caps_ok k (drive_up_to mph h s)"
  by (simp add: drive_up_to_def caps_ok_consume_driving)

lemma caps_ok_drive: "caps_ok k s \<Longrightarrow> caps_ok k (drive mph r s)"
proof (induction mph r s rule: drive.induct)
  case (1 mph r s)
  let ?h = "room (clock s)"
  let ?s = "drive_up_to mph ?h s"
  have up: "caps_ok k ?s"
    using "1.prems" room_le_daily_room by (intro caps_ok_drive_up_to)
  show ?case
  proof (cases "r \<le> 0")
    case True
    then show ?thesis using "1.prems" by (simp add: drive.simps [of mph r s])
  next
    case pos: False
    show ?thesis
    proof (cases "r \<le> ?h")
      case True
      then have "r \<le> daily_room (clock s)"
        using room_le_daily_room [of "clock s"] by simp
      then show ?thesis
        using pos True "1.prems" by (simp add: drive.simps [of mph r s] caps_ok_consume_driving)
    next
      case far: False
      show ?thesis
      proof (cases "daily_room (clock s) = ?h")
        case True
        then show ?thesis
          using pos far "1.IH"(1) up by (simp add: drive.simps [of mph r s] caps_ok_daily_rest)
      next
        case nd: False
        show ?thesis
        proof (cases "cycle_room (clock s) = ?h")
          case True
          then show ?thesis
            using pos far nd "1.IH"(2) up
            by (simp add: drive.simps [of mph r s] caps_ok_cycle_reset)
        next
          case nc: False
          then show ?thesis
            using pos far nd nc "1.IH"(3) up
            by (simp add: drive.simps [of mph r s] caps_ok_thirty_minute_break)
        qed
      qed
    qed
  qed
qed

lemma caps_ok_travel: "caps_ok k s \<Longrightarrow> purpose seg = travel \<Longrightarrow> caps_ok k (run_segment s seg)"
  by (simp add: caps_ok_drive)

lemma caps_ok_sequenced:
  assumes "sequence_legs leg1 leg2 = Inr segs"
  shows "caps_ok 2 (simulate start used segs)"
proof -
  let ?l1 = "leg1\<lparr>purpose := travel\<rparr>"
  let ?l2 = "leg2\<lparr>purpose := travel\<rparr>"
  let ?p = "\<lparr>distance_miles = 0, drive_duration_hours = pickup_handling_hours, purpose = pickup\<rparr>"
  let ?d = "\<lparr>distance_miles = 0, drive_duration_hours = dropoff_handling_hours, purpose = dropoff\<rparr>"
  have segs: "segs = [?l1, ?p, ?l2, ?d]"
    using assms by (simp add: sequence_legs_def split: if_splits)
  let ?s1 = "run_segment (initial_sim start used) ?l1"
  let ?s2 = "handling PickupHandling ''Reached pickup location'' 1 ?s1"
  let ?s3 = "run_segment ?s2 ?l2"
  let ?s4 = "handling DropoffHandling ''Reached dropoff location'' 1 ?s3"
  have "caps_ok 0 ?s1" by (intro caps_ok_travel caps_ok_initial) simp
  then have "caps_ok (0 + 1) ?s2" by (intro caps_ok_handling) simp_all
  then have "caps_ok 1 ?s3" by (intro caps_ok_travel) simp_all
  then have "caps_ok (1 + 1) ?s4" by (intro caps_ok_handling) simp_all
  moreover have "simulate start used segs = ?s4"
    by (simp add: simulate_def segs pickup_handling_hours_def dropoff_handling_hours_def
        del: run_segment.simps)
       (simp add: pickup_handling_hours_def dropoff_handling_hours_def)
  ultimately show ?thesis by simp
qed

subsection \<open>The caps and the break, over whole trips\<close>

text \<open>
  C1. For every trip the sequencer hands to the engine, the clock never shows more than
  11 hours of driving or more than 14 hours of window at any point of the log: the
  engine stops for the daily rest at the instant either would be passed, and the two
  handling stops, one hour each, cannot take the window past 14. Read off the log, the
  driving recorded since the last rest entry never exceeds 11 hours either.
\<close>

theorem daily_caps_never_exceeded:
  assumes "sequence_legs leg1 leg2 = Inr segs"
  shows "(\<forall>c \<in> set (clocks (simulate start used segs)).
            drive_hours_today c \<le> 11 \<and> on_duty_window_hours c \<le> 14)
    \<and> length (clocks (simulate start used segs)) = length (eld_logs (simulate start used segs))
    \<and> (\<forall>n \<le> length (eld_logs (simulate start used segs)).
          driving_since_rest (take n (eld_logs (simulate start used segs))) \<le> 11)"
  using caps_ok_sequenced [OF assms, of start used] by (simp add: caps_ok_def)

theorem daily_caps_never_exceeded_witness:
  "sequence_legs
      \<lparr>distance_miles = 540, drive_duration_hours = 9, purpose = travel\<rparr>
      \<lparr>distance_miles = 900, drive_duration_hours = 15, purpose = travel\<rparr>
    = Inr [\<lparr>distance_miles = 540, drive_duration_hours = 9, purpose = travel\<rparr>,
           \<lparr>distance_miles = 0, drive_duration_hours = 1, purpose = pickup\<rparr>,
           \<lparr>distance_miles = 900, drive_duration_hours = 15, purpose = travel\<rparr>,
           \<lparr>distance_miles = 0, drive_duration_hours = 1, purpose = dropoff\<rparr>]
   \<and> map kind (decisions (simulate 0 0
          [\<lparr>distance_miles = 540, drive_duration_hours = 9, purpose = travel\<rparr>,
           \<lparr>distance_miles = 0, drive_duration_hours = 1, purpose = pickup\<rparr>,
           \<lparr>distance_miles = 900, drive_duration_hours = 15, purpose = travel\<rparr>,
           \<lparr>distance_miles = 0, drive_duration_hours = 1, purpose = dropoff\<rparr>]))
      = [ThirtyMinuteBreak, PickupHandling, DailyRest10h, ThirtyMinuteBreak, DailyRest10h,
         DropoffHandling]
   \<and> length (clocks (simulate 0 0
          [\<lparr>distance_miles = 540, drive_duration_hours = 9, purpose = travel\<rparr>,
           \<lparr>distance_miles = 0, drive_duration_hours = 1, purpose = pickup\<rparr>,
           \<lparr>distance_miles = 900, drive_duration_hours = 15, purpose = travel\<rparr>,
           \<lparr>distance_miles = 0, drive_duration_hours = 1, purpose = dropoff\<rparr>])) = 12
   \<and> list_all (\<lambda>c. drive_hours_today c \<le> 11 \<and> on_duty_window_hours c \<le> 14)
        (clocks (simulate 0 0
          [\<lparr>distance_miles = 540, drive_duration_hours = 9, purpose = travel\<rparr>,
           \<lparr>distance_miles = 0, drive_duration_hours = 1, purpose = pickup\<rparr>,
           \<lparr>distance_miles = 900, drive_duration_hours = 15, purpose = travel\<rparr>,
           \<lparr>distance_miles = 0, drive_duration_hours = 1, purpose = dropoff\<rparr>]))
   \<and> driving_since_rest (take 5 (eld_logs (simulate 0 0
          [\<lparr>distance_miles = 540, drive_duration_hours = 9, purpose = travel\<rparr>,
           \<lparr>distance_miles = 0, drive_duration_hours = 1, purpose = pickup\<rparr>,
           \<lparr>distance_miles = 900, drive_duration_hours = 15, purpose = travel\<rparr>,
           \<lparr>distance_miles = 0, drive_duration_hours = 1, purpose = dropoff\<rparr>]))) \<le> 11"
proof -
  let ?la = "\<lparr>distance_miles = 540, drive_duration_hours = 9, purpose = travel\<rparr>"
  let ?lb = "\<lparr>distance_miles = 900, drive_duration_hours = 15, purpose = travel\<rparr>"
  let ?segs = "[?la, \<lparr>distance_miles = 0, drive_duration_hours = 1, purpose = pickup\<rparr>,
                ?lb, \<lparr>distance_miles = 0, drive_duration_hours = 1, purpose = dropoff\<rparr>]"
  have seq: "sequence_legs ?la ?lb = Inr ?segs"
    by (simp add: sequence_legs_def inconsistent_leg_def pickup_handling_hours_def
        dropoff_handling_hours_def)
  have kinds: "map kind (decisions (simulate 0 0 ?segs))
      = [ThirtyMinuteBreak, PickupHandling, DailyRest10h, ThirtyMinuteBreak, DailyRest10h,
         DropoffHandling]"
    by code_simp
  have len: "length (clocks (simulate 0 0 ?segs)) = 12"
    by code_simp
  note caps = daily_caps_never_exceeded [OF seq, of 0 0]
  have "list_all (\<lambda>c. drive_hours_today c \<le> 11 \<and> on_duty_window_hours c \<le> 14)
      (clocks (simulate 0 0 ?segs))"
    using caps by (simp add: list_all_iff)
  moreover have "driving_since_rest (take 5 (eld_logs (simulate 0 0 ?segs))) \<le> 11"
    using caps len by simp
  ultimately show ?thesis using seq kinds len by simp
qed

text \<open>
  C2. Replaying the emitted log of any trip, the driving accumulated since the last
  non-driving period of 30 minutes or more never exceeds 8 hours; every thirty-minute
  break of the log stands where exactly 8 hours have accumulated; and the log records
  all the driving the segments ask for, so the breaks are there whenever the route
  needs them.
\<close>

theorem break_before_more_than_8_hours:
  "(\<forall>n \<le> length (eld_logs (simulate start used segs)).
       driving_since_break (take n (eld_logs (simulate start used segs))) \<le> 8)
   \<and> (\<forall>i < length (eld_logs (simulate start used segs)).
         remarks (eld_logs (simulate start used segs) ! i) = ''30-minute break''
         \<longrightarrow> driving_since_break (take (Suc i) (eld_logs (simulate start used segs))) = 8)
   \<and> logged_driving (eld_logs (simulate start used segs)) = sum_list (map travel_hours segs)"
  using log_ok_simulate [of start used segs] logged_simulate [of start used segs]
  by (simp add: log_ok_def)

theorem break_before_more_than_8_hours_witness:
  "map remarks (eld_logs (simulate 0 0
      [\<lparr>distance_miles = 540, drive_duration_hours = 9, purpose = travel\<rparr>,
       \<lparr>distance_miles = 0, drive_duration_hours = 1, purpose = pickup\<rparr>,
       \<lparr>distance_miles = 900, drive_duration_hours = 15, purpose = travel\<rparr>,
       \<lparr>distance_miles = 0, drive_duration_hours = 1, purpose = dropoff\<rparr>]))
     = [''Driving'', ''30-minute break'', ''Driving'', ''Reached pickup location'', ''Driving'',
        ''10-hour rest'', ''Driving'', ''30-minute break'', ''Driving'', ''10-hour rest'',
        ''Driving'', ''Reached dropoff location'']
   \<and> driving_since_break (take 2 (eld_logs (simulate 0 0
      [\<lparr>distance_miles = 540, drive_duration_hours = 9, purpose = travel\<rparr>,
       \<lparr>distance_miles = 0, drive_duration_hours = 1, purpose = pickup\<rparr>,
       \<lparr>distance_miles = 900, drive_duration_hours = 15, purpose = travel\<rparr>,
       \<lparr>distance_miles = 0, drive_duration_hours = 1, purpose = dropoff\<rparr>]))) = 8
   \<and> driving_since_break (take 9 (eld_logs (simulate 0 0
      [\<lparr>distance_miles = 540, drive_duration_hours = 9, purpose = travel\<rparr>,
       \<lparr>distance_miles = 0, drive_duration_hours = 1, purpose = pickup\<rparr>,
       \<lparr>distance_miles = 900, drive_duration_hours = 15, purpose = travel\<rparr>,
       \<lparr>distance_miles = 0, drive_duration_hours = 1, purpose = dropoff\<rparr>]))) \<le> 8
   \<and> logged_driving (eld_logs (simulate 0 0
      [\<lparr>distance_miles = 540, drive_duration_hours = 9, purpose = travel\<rparr>,
       \<lparr>distance_miles = 0, drive_duration_hours = 1, purpose = pickup\<rparr>,
       \<lparr>distance_miles = 900, drive_duration_hours = 15, purpose = travel\<rparr>,
       \<lparr>distance_miles = 0, drive_duration_hours = 1, purpose = dropoff\<rparr>])) = 24"
proof -
  let ?segs = "[\<lparr>distance_miles = 540, drive_duration_hours = 9, purpose = travel\<rparr>,
       \<lparr>distance_miles = 0, drive_duration_hours = 1, purpose = pickup\<rparr>,
       \<lparr>distance_miles = 900, drive_duration_hours = 15, purpose = travel\<rparr>,
       \<lparr>distance_miles = 0, drive_duration_hours = 1, purpose = dropoff\<rparr>]"
  let ?log = "eld_logs (simulate 0 0 ?segs)"
  have rems: "map remarks ?log
     = [''Driving'', ''30-minute break'', ''Driving'', ''Reached pickup location'', ''Driving'',
        ''10-hour rest'', ''Driving'', ''30-minute break'', ''Driving'', ''10-hour rest'',
        ''Driving'', ''Reached dropoff location'']"
    by code_simp
  have len: "length ?log = 12"
    by code_simp
  have "remarks (?log ! 1) = map remarks ?log ! 1"
    using len by simp
  then have brk: "remarks (?log ! 1) = ''30-minute break''"
    by (simp only: rems) simp
  note main = break_before_more_than_8_hours [of 0 0 ?segs]
  have "driving_since_break (take (Suc 1) ?log) = 8"
    using main len brk by simp
  moreover have "driving_since_break (take 9 ?log) \<le> 8"
    using main len by simp
  moreover have "logged_driving ?log = 24"
    using main by (simp add: travel_hours_def)
  ultimately show ?thesis using rems by (simp add: numeral_2_eq_2)
qed

end
